theory Spec2Isabelle
  imports Complex_Main
begin

section \<open>MCMC diagnostics of pyprob (stats.py)\<close>

text \<open>
  The embedding follows \<^verbatim>\<open>src/pyprob/stats.py\<close>. Floating-point numbers are the
  real numbers (exact arithmetic, no rounding). A one-dimensional NumPy array is a list.
  NumPy does not raise on a division by zero or on the mean of an empty slice: it warns
  and continues with \<^verbatim>\<open>inf\<close> or \<^verbatim>\<open>nan\<close>. Such a run has left exact
  arithmetic; the embedding stops there with \<open>Inl NonFinite\<close> and says nothing about
  what the run does afterwards. The other errors are the exceptions Python raises.
\<close>

subsection \<open>Errors and NumPy primitives\<close>

datatype error = KeyError | IndexError | ValueError | ZeroDivisionError | NonFinite

text \<open>The slice \<^verbatim>\<open>x[:e]\<close>: a negative stop counts from the end.\<close>

definition py_slice_to :: "'a list \<Rightarrow> int \<Rightarrow> 'a list" where
  "py_slice_to xs e =
     (if e < 0 then take (nat (int (length xs) + e)) xs else take (nat e) xs)"

text \<open>
  Elementwise product of two one-dimensional arrays, with NumPy's broadcasting: equal
  lengths, or one operand of length one; any other pair of shapes raises ValueError.
\<close>

definition np_multiply :: "real list \<Rightarrow> real list \<Rightarrow> error + real list" where
  "np_multiply a b =
     (if length a = length b then Inr (map2 (*) a b)
      else if length a = 1 then Inr (map (\<lambda>v. hd a * v) b)
      else if length b = 1 then Inr (map (\<lambda>v. v * hd b) a)
      else Inl ValueError)"

text \<open>\<^verbatim>\<open>np.mean\<close> of a one-dimensional array; the mean of an empty array is nan.\<close>

definition np_mean :: "real list \<Rightarrow> error + real" where
  "np_mean xs = (if xs = [] then Inl NonFinite else Inr (sum_list xs / real (length xs)))"

text \<open>Division of NumPy floats; a zero divisor gives inf or nan.\<close>

definition np_true_divide :: "real \<Rightarrow> real \<Rightarrow> error + real" where
  "np_true_divide a b = (if b = 0 then Inl NonFinite else Inr (a / b))"

subsection \<open>compute\_acorr (lines 98 to 105)\<close>

text \<open>
  The lag is a natural number: every call in the file passes a lag counter that starts
  at 0 and is only incremented.
\<close>

definition compute_acorr :: "real list \<Rightarrow> nat \<Rightarrow> real \<Rightarrow> real \<Rightarrow> error + real" where
  "compute_acorr x k mu var =
     (let n = length x in
      case np_multiply (map (\<lambda>v. v - mu) (py_slice_to x (int n - int k)))
                       (map (\<lambda>v. v - mu) (drop k x)) of
        Inl e \<Rightarrow> Inl e
      | Inr acorr \<Rightarrow>
          (case np_mean acorr of
             Inl e \<Rightarrow> Inl e
           | Inr m \<Rightarrow>
               (case np_true_divide m var of
                  Inl e \<Rightarrow> Inl e
                | Inr q \<Rightarrow> np_true_divide (q * real_of_int (int n - int k)) (real n))))"

subsection \<open>ess\_1d (lines 65 to 95)\<close>

text \<open>
  The effective sample size that \<open>ess_1d\<close> returns is a finite number or
  \<^verbatim>\<open>float('inf')\<close>.
\<close>

datatype ess_value = Finite real | PosInf

text \<open>
  The while loop of lines 80 to 90, on the variables it reads and writes. It terminates
  because \<open>lag\<close> grows by two in every pass and stays below \<open>len(x)\<close>.
\<close>

function ess_1d_loop ::
  "real list \<Rightarrow> real \<Rightarrow> real \<Rightarrow> nat \<Rightarrow> real \<Rightarrow> real \<Rightarrow> real \<Rightarrow> real \<Rightarrow> real list
     \<Rightarrow> error + real \<times> real list" where
  "ess_1d_loop x mu var lag even_auto_cor odd_auto_cor running_min auto_cor_sum auto_cor =
     (if even_auto_cor + odd_auto_cor > 0 \<and> lag + 2 < length x then
        let running_min' = min running_min (even_auto_cor + odd_auto_cor);
            auto_cor_sum' = auto_cor_sum + 2 * running_min'
        in case compute_acorr x (lag + 1) mu var of
             Inl e \<Rightarrow> Inl e
           | Inr even_auto_cor' \<Rightarrow>
               (case compute_acorr x (lag + 2) mu var of
                  Inl e \<Rightarrow> Inl e
                | Inr odd_auto_cor' \<Rightarrow>
                    ess_1d_loop x mu var (lag + 2) even_auto_cor' odd_auto_cor' running_min'
                      auto_cor_sum' (auto_cor @ [even_auto_cor', odd_auto_cor']))
      else Inr (auto_cor_sum, auto_cor))"
  by pat_completeness auto
termination
  by (relation "measure (\<lambda>(x, mu, var, lag, rest). length x - lag)") auto

declare ess_1d_loop.simps [simp del]

text \<open>Lines 66 to 90: the two first autocorrelations, then the loop. The result is
  \<open>(auto_cor_sum, auto_cor)\<close> as they stand before line 92.\<close>

definition ess_1d_sum :: "real list \<Rightarrow> real \<Rightarrow> real \<Rightarrow> error + real \<times> real list" where
  "ess_1d_sum x mu var =
     (case compute_acorr x 0 mu var of
        Inl e \<Rightarrow> Inl e
      | Inr even_auto_cor \<Rightarrow>
          (case compute_acorr x 1 mu var of
             Inl e \<Rightarrow> Inl e
           | Inr odd_auto_cor \<Rightarrow>
               ess_1d_loop x mu var 1 even_auto_cor odd_auto_cor
                 (even_auto_cor + odd_auto_cor) (0 - even_auto_cor)
                 [even_auto_cor, odd_auto_cor]))"

text \<open>
  Lines 92 to 95. The sum is a NumPy float, so \<open>n / auto_cor_sum\<close> does not raise
  when the sum is zero: the numerator is positive here (the lag-1 autocorrelation was
  computed, hence \<open>n \<ge> 2\<close>) and NumPy returns \<^verbatim>\<open>inf\<close>.
\<close>

definition ess_1d :: "real list \<Rightarrow> real \<Rightarrow> real \<Rightarrow> error + ess_value \<times> real list" where
  "ess_1d x mu var =
     (case ess_1d_sum x mu var of
        Inl e \<Rightarrow> Inl e
      | Inr (auto_cor_sum, auto_cor) \<Rightarrow>
          let ess = (if auto_cor_sum = 0 then PosInf
                     else Finite (real (length x) / auto_cor_sum));
              ess = (if auto_cor_sum < 0 then PosInf else ess)
          in Inr (ess, auto_cor))"

subsection \<open>Two- and three-dimensional arrays\<close>

text \<open>
  A NumPy array of two or three dimensions is its shape and its element function; the
  functions below read elements only at indices inside the shape.
\<close>

record ndarray2 =
  nrows :: nat
  ncols :: nat
  at2 :: "nat \<Rightarrow> nat \<Rightarrow> real"

record ndarray3 =
  dim_b :: nat
  dim_t :: nat
  dim_d :: nat
  at3 :: "nat \<Rightarrow> nat \<Rightarrow> nat \<Rightarrow> real"

text \<open>\<^verbatim>\<open>np.array(rows)\<close> and \<^verbatim>\<open>np.array(chains)\<close> for rectangular nested lists.\<close>

definition of_rows :: "real list list \<Rightarrow> ndarray2" where
  "of_rows rs = \<lparr>nrows = length rs, ncols = (if rs = [] then 0 else length (hd rs)),
                 at2 = (\<lambda>i k. rs ! i ! k)\<rparr>"

definition of_chains :: "real list list list \<Rightarrow> ndarray3" where
  "of_chains cs =
     \<lparr>dim_b = length cs,
      dim_t = (if cs = [] then 0 else length (hd cs)),
      dim_d = (if cs = [] \<or> hd cs = [] then 0 else length (hd (hd cs))),
      at3 = (\<lambda>i r j. cs ! i ! r ! j)\<rparr>"

text \<open>Row \<^verbatim>\<open>a[i]\<close>, column \<^verbatim>\<open>a[:, j]\<close> (IndexError when there is no such column)
  and all the elements of \<open>a\<close>.\<close>

definition row :: "ndarray2 \<Rightarrow> nat \<Rightarrow> real list" where
  "row a i = map (at2 a i) [0..<ncols a]"

definition column :: "ndarray2 \<Rightarrow> nat \<Rightarrow> error + real list" where
  "column a j =
     (if j < ncols a then Inr (map (\<lambda>i. at2 a i j) [0..<nrows a]) else Inl IndexError)"

definition flatten2 :: "ndarray2 \<Rightarrow> real list" where
  "flatten2 a = concat (map (row a) [0..<nrows a])"

text \<open>\<^verbatim>\<open>np.var\<close>: the mean of the squared deviations from the mean.\<close>

definition np_var :: "real list \<Rightarrow> error + real" where
  "np_var xs =
     (case np_mean xs of Inl e \<Rightarrow> Inl e | Inr m \<Rightarrow> np_mean (map (\<lambda>v. (v - m)\<^sup>2) xs))"

text \<open>An elementwise operation fails as soon as one of its elements does.\<close>

primrec sequence_err :: "(error + 'a) list \<Rightarrow> error + 'a list" where
  "sequence_err [] = Inr []"
| "sequence_err (r # rs) =
     (case r of
        Inl e \<Rightarrow> Inl e
      | Inr v \<Rightarrow> (case sequence_err rs of Inl e \<Rightarrow> Inl e | Inr vs \<Rightarrow> Inr (v # vs)))"

text \<open>
  Broadcasting a vector (or a scalar, as a vector of length one) against an axis of
  length \<open>d\<close>.
\<close>

definition np_broadcast_to :: "nat \<Rightarrow> real list \<Rightarrow> error + real list" where
  "np_broadcast_to d v =
     (if length v = d then Inr v
      else if length v = 1 then Inr (replicate d (hd v))
      else Inl ValueError)"

text \<open>\<^verbatim>\<open>np.sqrt\<close>: nan on a negative number.\<close>

definition np_sqrt :: "real \<Rightarrow> error + real" where
  "np_sqrt q = (if q < 0 then Inl NonFinite else Inr (sqrt q))"

subsection \<open>mono\_seq\_ess (lines 19 to 63)\<close>

text \<open>
  The loop of lines 55 to 59 over the remaining values of \<open>j\<close>. The means \<open>mu\<close> and
  \<open>var\<close> may be nan (an empty array); that matters only once \<open>ess_1d\<close> computes
  with them.
\<close>

fun mono_seq_ess_loop ::
  "ndarray2 \<Rightarrow> error + real \<Rightarrow> error + real \<Rightarrow> nat list
     \<Rightarrow> ess_value list \<times> real list list \<Rightarrow> error + ess_value list \<times> real list list" where
  "mono_seq_ess_loop a mu var [] (ess, auto_cor) = Inr (ess, auto_cor)"
| "mono_seq_ess_loop a mu var (j # js) (ess, auto_cor) =
     (case column a j of
        Inl e \<Rightarrow> Inl e
      | Inr x \<Rightarrow>
          (case mu of
             Inl e \<Rightarrow> Inl e
           | Inr mu_v \<Rightarrow>
               (case var of
                  Inl e \<Rightarrow> Inl e
                | Inr var_v \<Rightarrow>
                    (case ess_1d x mu_v var_v of
                       Inl e \<Rightarrow> Inl e
                     | Inr (ess_j, auto_cor_j) \<Rightarrow>
                         mono_seq_ess_loop a mu var js
                           (ess[j := ess_j], auto_cor @ [auto_cor_j])))))"

text \<open>
  \<open>samples\<close> maps a key to its array. \<open>d = len(samples[key]) - 1\<close> is the number of rows
  minus one; on an array without rows \<open>np.zeros(-1)\<close> raises ValueError. The function
  returns \<open>ess\<close> alone (line 63). The parameter \<open>normed\<close> is never read.
\<close>

definition mono_seq_ess ::
  "('k \<rightharpoonup> ndarray2) \<Rightarrow> 'k \<Rightarrow> real option \<Rightarrow> real option \<Rightarrow> error + ess_value list" where
  "mono_seq_ess samples key mu var =
     (case samples key of
        None \<Rightarrow> Inl KeyError
      | Some a \<Rightarrow>
          let mu' = (case mu of None \<Rightarrow> np_mean (flatten2 a) | Some v \<Rightarrow> Inr v);
              var' = (case var of None \<Rightarrow> np_var (flatten2 a) | Some v \<Rightarrow> Inr v)
          in if nrows a = 0 then Inl ValueError
             else let d = nrows a - 1
                  in (case mono_seq_ess_loop a mu' var' [0..<d] (replicate d (Finite 0), []) of
                        Inl e \<Rightarrow> Inl e
                      | Inr (ess, auto_cor) \<Rightarrow> Inr ess))"

subsection \<open>auto\_correlation\_time (lines 136 to 144)\<close>

text \<open>
  One pass of the loop over the chains: the vector \<open>np.mean(p * n, axis=0) / var\<close> for
  chain \<open>i\<close>. For \<open>s \<ge> 1\<close> the slices \<open>y[:-s]\<close> and \<open>y[s:]\<close> both have \<open>t - s\<close> rows
  (none when \<open>s \<ge> t\<close>). For \<open>s = 0\<close> the slice \<open>y[:-0]\<close> is empty and \<open>y[0:]\<close> is all
  of \<open>y\<close>, which broadcast only when \<open>t \<le> 1\<close>.
\<close>

definition chain_term ::
  "ndarray3 \<Rightarrow> nat \<Rightarrow> nat \<Rightarrow> real list \<Rightarrow> real list \<Rightarrow> error + real list" where
  "chain_term x i s mu var =
     (case np_broadcast_to (dim_d x) mu of
        Inl e \<Rightarrow> Inl e
      | Inr mu_b \<Rightarrow>
          if s = 0 \<and> 2 \<le> dim_t x then Inl ValueError
          else
            (case np_broadcast_to (dim_d x) var of
               Inl e \<Rightarrow> Inl e
             | Inr var_b \<Rightarrow>
                 let rows = (if s = 0 then 0 else dim_t x - s)
                 in sequence_err (map (\<lambda>j.
                      case np_mean (map (\<lambda>r. (at3 x i r j - mu_b ! j)
                                               * (at3 x i (r + s) j - mu_b ! j)) [0..<rows]) of
                        Inl e \<Rightarrow> Inl e
                      | Inr m \<Rightarrow> np_true_divide m (var_b ! j)) [0..<dim_d x])))"

fun act_loop ::
  "ndarray3 \<Rightarrow> nat \<Rightarrow> real list \<Rightarrow> real list \<Rightarrow> nat list \<Rightarrow> real list \<Rightarrow> error + real list" where
  "act_loop x s mu var [] act = Inr act"
| "act_loop x s mu var (i # is) act =
     (case chain_term x i s mu var of
        Inl e \<Rightarrow> Inl e
      | Inr c \<Rightarrow> act_loop x s mu var is (map2 (+) act c))"

definition auto_correlation_time ::
  "ndarray3 \<Rightarrow> nat \<Rightarrow> real list \<Rightarrow> real list \<Rightarrow> error + real list" where
  "auto_correlation_time x s mu var =
     (case act_loop x s mu var [0..<dim_b x] (replicate (dim_d x) 0) of
        Inl e \<Rightarrow> Inl e
      | Inr act \<Rightarrow> sequence_err (map (\<lambda>a. np_true_divide a (real (dim_b x))) act))"

subsection \<open>effective\_sample\_size (lines 108 to 134)\<close>

text \<open>\<^verbatim>\<open>np.mean(x, axis=(0, 1))\<close> and \<^verbatim>\<open>np.var(x, axis=(0, 1))\<close>: one value for each
  dimension, over all chains and draws.\<close>

definition entries01 :: "ndarray3 \<Rightarrow> nat \<Rightarrow> real list" where
  "entries01 x j = concat (map (\<lambda>i. map (\<lambda>r. at3 x i r j) [0..<dim_t x]) [0..<dim_b x])"

definition np_mean_axis01 :: "ndarray3 \<Rightarrow> error + real list" where
  "np_mean_axis01 x = sequence_err (map (\<lambda>j. np_mean (entries01 x j)) [0..<dim_d x])"

definition np_var_axis01 :: "ndarray3 \<Rightarrow> error + real list" where
  "np_var_axis01 x = sequence_err (map (\<lambda>j. np_var (entries01 x j)) [0..<dim_d x])"

text \<open>Lines 129 to 131: the inner loop over the dimensions.\<close>

definition ess_update :: "ndarray3 \<Rightarrow> nat \<Rightarrow> real list \<Rightarrow> real list \<Rightarrow> real list" where
  "ess_update x s p ess =
     fold (\<lambda>j e. if p ! j > 5 / 100
                  then e[j := e ! j + 2 * p ! j * (1 - real s / real (dim_t x))] else e)
       [0..<dim_d x] ess"

text \<open>Lines 124 to 131: the loop over the remaining lags, with its \<open>break\<close>.\<close>

fun ess_lag_loop ::
  "ndarray3 \<Rightarrow> real list \<Rightarrow> real list \<Rightarrow> nat list \<Rightarrow> real list \<Rightarrow> error + real list" where
  "ess_lag_loop x mu var [] ess = Inr ess"
| "ess_lag_loop x mu var (s # ss) ess =
     (case auto_correlation_time x s mu var of
        Inl e \<Rightarrow> Inl e
      | Inr p \<Rightarrow>
          if length (filter (\<lambda>v. v > 5 / 100) p) = 0 then Inr ess
          else ess_lag_loop x mu var ss (ess_update x s p ess))"

definition effective_sample_size ::
  "ndarray3 \<Rightarrow> real list option \<Rightarrow> real list option \<Rightarrow> error + real list" where
  "effective_sample_size x mu var =
     (case (case mu of None \<Rightarrow> np_mean_axis01 x | Some v \<Rightarrow> Inr v) of
        Inl e \<Rightarrow> Inl e
      | Inr mu' \<Rightarrow>
          (case (case var of None \<Rightarrow> np_var_axis01 x | Some v \<Rightarrow> Inr v) of
             Inl e \<Rightarrow> Inl e
           | Inr var' \<Rightarrow>
               (case ess_lag_loop x mu' var' [1..<dim_t x] (replicate (dim_d x) 1) of
                  Inl e \<Rightarrow> Inl e
                | Inr ess \<Rightarrow>
                    sequence_err (map (\<lambda>e. np_true_divide (real (dim_t x)) e) ess))))"

subsection \<open>gelman\_rubin\_diagnostic (lines 151 to 188)\<close>

text \<open>
  Line 178, \<open>mu if mu else np.mean(theta, axis=0)\<close>: a missing \<open>mu\<close> and a \<open>mu\<close> equal
  to zero are both false in Python.
\<close>

definition theta_m :: "real option \<Rightarrow> real list \<Rightarrow> error + real" where
  "theta_m mu theta =
     (case mu of
        None \<Rightarrow> np_mean theta
      | Some v \<Rightarrow> if v \<noteq> 0 then Inr v else np_mean theta)"

text \<open>
  Lines 170 to 186 up to the quotient \<open>v_hat / w\<close>.
  With \<open>m \<ge> 2\<close> chains and no draws (\<open>n = 0\<close>) the means of lines 175 to 183 are nan,
  which does not raise, and \<open>float(n-1) / float(n)\<close> on line 185 divides Python floats:
  ZeroDivisionError.
\<close>

definition gelman_rubin_ratio :: "ndarray2 \<Rightarrow> real option \<Rightarrow> error + real" where
  "gelman_rubin_ratio x mu =
     (let m = nrows x; n = ncols x
      in if m < 2 then Inl ValueError
         else if n = 0 then Inl ZeroDivisionError
         else
           (case sequence_err (map (\<lambda>i. np_mean (row x i)) [0..<m]) of
              Inl e \<Rightarrow> Inl e
            | Inr theta \<Rightarrow>
                (case sequence_err (map (\<lambda>i. np_var (row x i)) [0..<m]) of
                   Inl e \<Rightarrow> Inl e
                 | Inr sigma \<Rightarrow>
                     (case theta_m mu theta of
                        Inl e \<Rightarrow> Inl e
                      | Inr th_m \<Rightarrow>
                          let b = real n / real (m - 1)
                                    * sum_list (map (\<lambda>th. (th - th_m)\<^sup>2) theta);
                              w = 1 / real m * sum_list sigma;
                              v_hat = real (n - 1) / real n * w
                                        + real (m + 1) / real (m * n) * b
                          in np_true_divide v_hat w))))"

text \<open>Line 186: the square root of the quotient.\<close>

definition gelman_rubin_diagnostic :: "ndarray2 \<Rightarrow> real option \<Rightarrow> error + real" where
  "gelman_rubin_diagnostic x mu =
     (case gelman_rubin_ratio x mu of Inl e \<Rightarrow> Inl e | Inr q \<Rightarrow> np_sqrt q)"

section \<open>The specification's formulas\<close>

subsection \<open>Autocorrelation and the monotone sequence estimator\<close>

text \<open>The closed form of the lag-\<open>k\<close> autocorrelation estimate, as section 4.1 of the
  specification writes it.\<close>

definition acorr_spec :: "real list \<Rightarrow> real \<Rightarrow> real \<Rightarrow> nat \<Rightarrow> real" where
  "acorr_spec x mu var k =
     (\<Sum>i<length x - k. (x ! i - mu) * (x ! (i + k) - mu)) / real (length x - k) / var
       * (real (length x - k) / real (length x))"


text \<open>
  The sum of the even-lag and odd-lag autocorrelations of pair \<open>j\<close> (lags \<open>2j\<close> and
  \<open>2j + 1\<close>); the loop condition before pass \<open>j\<close>, where \<open>lag = 2j + 1\<close>; the number of
  passes; the running minimum after pass \<open>j\<close>; the accumulated sum and the trace.
\<close>

definition pair_sum :: "real list \<Rightarrow> real \<Rightarrow> real \<Rightarrow> nat \<Rightarrow> real" where
  "pair_sum x mu var j = acorr_spec x mu var (2 * j) + acorr_spec x mu var (2 * j + 1)"

definition loop_guard :: "real list \<Rightarrow> real \<Rightarrow> real \<Rightarrow> nat \<Rightarrow> bool" where
  "loop_guard x mu var j \<longleftrightarrow> pair_sum x mu var j > 0 \<and> 2 * j + 3 < length x"

definition n_pairs :: "real list \<Rightarrow> real \<Rightarrow> real \<Rightarrow> nat" where
  "n_pairs x mu var = length (takeWhile (loop_guard x mu var) [0..<length x])"

definition monotone_min :: "real list \<Rightarrow> real \<Rightarrow> real \<Rightarrow> nat \<Rightarrow> real" where
  "monotone_min x mu var j = Min (pair_sum x mu var ` {..j})"

definition accumulated_spec :: "real list \<Rightarrow> real \<Rightarrow> real \<Rightarrow> real" where
  "accumulated_spec x mu var =
     - acorr_spec x mu var 0 + 2 * (\<Sum>j<n_pairs x mu var. monotone_min x mu var j)"

definition trace_spec :: "real list \<Rightarrow> real \<Rightarrow> real \<Rightarrow> real list" where
  "trace_spec x mu var = map (acorr_spec x mu var) [0..<2 * n_pairs x mu var + 2]"

text \<open>
  The running minimum as the loop computes it, \<open>running_min = min(running_min, even + odd)\<close>
  starting from the first pair sum; it equals \<open>monotone_min\<close>.
\<close>

primrec running_min_at :: "real list \<Rightarrow> real \<Rightarrow> real \<Rightarrow> nat \<Rightarrow> real" where
  "running_min_at x mu var 0 = pair_sum x mu var 0"
| "running_min_at x mu var (Suc j) =
     min (running_min_at x mu var j) (pair_sum x mu var (Suc j))"


subsection \<open>Batched autocorrelation-time estimator\<close>

text \<open>
  For chain \<open>i\<close>, dimension \<open>j\<close> and lag \<open>s\<close>: the mean product of centered values
  \<open>s\<close> draws apart, divided by the variance. The batch-averaged autocorrelation is its
  average over the chains. A lag is significant when the autocorrelation of some
  dimension exceeds 0.05. The loop handles the lags \<open>1, 2, ...\<close> below \<open>t\<close> up to the
  first one that is not significant.
\<close>

definition chain_acorr ::
  "ndarray3 \<Rightarrow> real list \<Rightarrow> real list \<Rightarrow> nat \<Rightarrow> nat \<Rightarrow> nat \<Rightarrow> real" where
  "chain_acorr x mu var s i j =
     (\<Sum>r<dim_t x - s. (at3 x i r j - mu ! j) * (at3 x i (r + s) j - mu ! j))
       / real (dim_t x - s) / var ! j"

definition batch_acorr :: "ndarray3 \<Rightarrow> real list \<Rightarrow> real list \<Rightarrow> nat \<Rightarrow> nat \<Rightarrow> real" where
  "batch_acorr x mu var s j = (\<Sum>i<dim_b x. chain_acorr x mu var s i j) / real (dim_b x)"

definition significant :: "ndarray3 \<Rightarrow> real list \<Rightarrow> real list \<Rightarrow> nat \<Rightarrow> bool" where
  "significant x mu var s \<longleftrightarrow> (\<exists>j<dim_d x. batch_acorr x mu var s j > 5 / 100)"

definition n_lags :: "ndarray3 \<Rightarrow> real list \<Rightarrow> real list \<Rightarrow> nat" where
  "n_lags x mu var = length (takeWhile (significant x mu var) [1..<dim_t x])"

text \<open>What lag \<open>s\<close> adds to the accumulator of dimension \<open>j\<close>, and the accumulator
  after the loop.\<close>

definition lag_term :: "ndarray3 \<Rightarrow> real list \<Rightarrow> real list \<Rightarrow> nat \<Rightarrow> nat \<Rightarrow> real" where
  "lag_term x mu var s j =
     (if batch_acorr x mu var s j > 5 / 100
      then 2 * batch_acorr x mu var s j * (1 - real s / real (dim_t x)) else 0)"

definition inflation :: "ndarray3 \<Rightarrow> real list \<Rightarrow> real list \<Rightarrow> nat \<Rightarrow> real" where
  "inflation x mu var j = 1 + (\<Sum>s = 1..n_lags x mu var. lag_term x mu var s j)"

subsection \<open>Gelman-Rubin statistic\<close>

text \<open>
  Per-chain mean and variance over the draws, between-chain variance \<open>B\<close> around a grand
  mean, within-chain variance \<open>W\<close> and pooled estimate \<open>V_hat\<close>, for \<open>m\<close> chains of
  \<open>n\<close> draws.
\<close>

definition chain_mean :: "ndarray2 \<Rightarrow> nat \<Rightarrow> real" where
  "chain_mean x i = (\<Sum>k<ncols x. at2 x i k) / real (ncols x)"

definition chain_var :: "ndarray2 \<Rightarrow> nat \<Rightarrow> real" where
  "chain_var x i = (\<Sum>k<ncols x. (at2 x i k - chain_mean x i)\<^sup>2) / real (ncols x)"

text \<open>
  The grand mean that line 178 yields: the supplied reference mean when there is one and
  it is not zero, else the mean of the chain means.
\<close>

definition grand_mean_used :: "ndarray2 \<Rightarrow> real option \<Rightarrow> real" where
  "grand_mean_used x mu =
     (case mu of
        None \<Rightarrow> (\<Sum>i<nrows x. chain_mean x i) / real (nrows x)
      | Some v \<Rightarrow> if v \<noteq> 0 then v else (\<Sum>i<nrows x. chain_mean x i) / real (nrows x))"

definition between_var :: "ndarray2 \<Rightarrow> real \<Rightarrow> real" where
  "between_var x theta_bar =
     real (ncols x) / real (nrows x - 1) * (\<Sum>i<nrows x. (chain_mean x i - theta_bar)\<^sup>2)"

definition within_var :: "ndarray2 \<Rightarrow> real" where
  "within_var x = 1 / real (nrows x) * (\<Sum>i<nrows x. chain_var x i)"

definition pooled_var :: "ndarray2 \<Rightarrow> real \<Rightarrow> real" where
  "pooled_var x theta_bar =
     real (ncols x - 1) / real (ncols x) * within_var x
       + real (nrows x + 1) / real (nrows x * ncols x) * between_var x theta_bar"

section \<open>Properties\<close>

subsection \<open>Properties of compute\_acorr\<close>

lemma sum_list_centered_products:
  assumes "k < length x"
  shows "sum_list (map2 (*) (map (\<lambda>v. v - mu) (take (length x - k) x))
                             (map (\<lambda>v. v - mu) (drop k x)))
         = (\<Sum>i<length x - k. (x ! i - mu) * (x ! (i + k) - mu))"
proof -
  let ?zs = "map2 (*) (map (\<lambda>v. v - mu) (take (length x - k) x))
                      (map (\<lambda>v. v - mu) (drop k x))"
  have len: "length ?zs = length x - k" by simp
  have nth: "?zs ! i = (x ! i - mu) * (x ! (i + k) - mu)" if "i < length x - k" for i
    using that by (simp add: add.commute)
  have "sum_list ?zs = (\<Sum>i = 0..<length ?zs. ?zs ! i)"
    by (rule sum_list_sum_nth)
  also have "\<dots> = (\<Sum>i = 0..<length x - k. (x ! i - mu) * (x ! (i + k) - mu))"
    unfolding len by (rule sum.cong) (simp_all add: nth del: nth_zip nth_map)
  finally show ?thesis by (simp add: lessThan_atLeast0)
qed

lemma compute_acorr_closed:
  assumes "k < length x" and "var \<noteq> 0"
  shows "compute_acorr x k mu var = Inr (acorr_spec x mu var k)"
proof -
  have slice: "py_slice_to x (int (length x) - int k) = take (length x - k) x"
    using assms(1) by (simp add: py_slice_to_def nat_diff_distrib')
  have ne: "length x - k \<noteq> 0" "x \<noteq> []" using assms(1) by auto
  have rint: "real_of_int (int (length x) - int k) = real (length x - k)"
    using assms(1) by (simp add: of_nat_diff)
  show ?thesis
    using assms ne
    by (simp add: compute_acorr_def Let_def slice np_multiply_def np_mean_def
        np_true_divide_def sum_list_centered_products rint acorr_spec_def)
qed

text \<open>
  C9. For a series \<open>x\<close> of length \<open>n\<close>, a lag \<open>k < n\<close>, a mean \<open>mu\<close> and a non-zero
  variance \<open>var\<close>, \<open>compute_acorr\<close> returns the mean over \<open>i = 0 .. n-k-1\<close> of
  \<open>(x[i] - mu) * (x[i+k] - mu)\<close>, divided by \<open>var\<close>, times the correction factor
  \<open>(n - k) / n\<close>.
\<close>

theorem compute_acorr_formula:
  assumes "k < length x" and "var \<noteq> 0"
  shows "compute_acorr x k mu var =
           Inr ((\<Sum>i<length x - k. (x ! i - mu) * (x ! (i + k) - mu)) / real (length x - k)
                  / var * (real (length x - k) / real (length x)))"
  using compute_acorr_closed [OF assms] by (simp add: acorr_spec_def)

theorem compute_acorr_formula_witness:
  "(1::nat) < length [1, 2, 4 :: real] \<and> (1::real) \<noteq> 0 \<and>
   compute_acorr [1, 2, 4] 1 1 1 = Inr 1"
  using compute_acorr_formula [of 1 "[1, 2, 4]" 1 1]
  by (simp add: lessThan_Suc eval_nat_numeral)

subsection \<open>Properties of ess\_1d\<close>

lemma running_min_at_Min: "running_min_at x mu var j = monotone_min x mu var j"
proof (induction j)
  case 0
  show ?case by (simp add: monotone_min_def)
next
  case (Suc j)
  have "Min (pair_sum x mu var ` {..Suc j})
        = min (pair_sum x mu var (Suc j)) (Min (pair_sum x mu var ` {..j}))"
    by (simp add: atMost_Suc)
  with Suc show ?case by (simp add: monotone_min_def min.commute)
qed

lemma upt_two_Cons: "a + 2 \<le> b \<Longrightarrow> [a..<b] = a # Suc a # [a + 2..<b]"
  by (simp add: upt_conv_Cons Suc_le_eq)

lemma ess_1d_loop_closed:
  assumes "var \<noteq> 0" and "2 * j + 1 < length x"
    and "min rm (pair_sum x mu var j) = running_min_at x mu var j"
  shows "ess_1d_loop x mu var (2 * j + 1) (acorr_spec x mu var (2 * j))
           (acorr_spec x mu var (2 * j + 1)) rm acs ac
         = Inr (acs + 2 * (\<Sum>i = j..<j + length (takeWhile (loop_guard x mu var) [j..<length x]).
                              running_min_at x mu var i),
                ac @ map (acorr_spec x mu var)
                  [2 * j + 2..<2 * (j + length (takeWhile (loop_guard x mu var) [j..<length x])) + 2])"
  using assms
proof (induction "length x - j" arbitrary: j rm acs ac rule: less_induct)
  case less
  let ?a = "acorr_spec x mu var"
  let ?G = "loop_guard x mu var"
  have jn: "j < length x" using less.prems(2) by simp
  have upt: "[j..<length x] = j # [Suc j..<length x]" using jn by (rule upt_conv_Cons)
  show ?case
  proof (cases "?G j")
    case False
    then have c0: "takeWhile ?G [j..<length x] = []" by (simp add: upt)
    from False have "\<not> (?a (2 * j) + ?a (2 * j + 1) > 0 \<and> 2 * j + 1 + 2 < length x)"
      by (auto simp add: loop_guard_def pair_sum_def)
    then show ?thesis
      by (subst ess_1d_loop.simps) (simp only: if_False c0, simp)
  next
    case True
    then have pos: "?a (2 * j) + ?a (2 * j + 1) > 0" and lt: "2 * j + 3 < length x"
      by (simp_all add: loop_guard_def pair_sum_def)
    let ?c' = "length (takeWhile ?G [Suc j..<length x])"
    have c: "length (takeWhile ?G [j..<length x]) = Suc ?c'"
      using True by (simp add: upt)
    have ev: "compute_acorr x (2 * j + 1 + 1) mu var = Inr (?a (2 * Suc j))"
      using lt less.prems(1) by (simp add: compute_acorr_closed)
    have od: "compute_acorr x (2 * j + 1 + 2) mu var = Inr (?a (2 * Suc j + 1))"
      using lt less.prems(1) by (simp add: compute_acorr_closed)
    have rm': "min rm (?a (2 * j) + ?a (2 * j + 1)) = running_min_at x mu var j"
      using less.prems(3) by (simp add: pair_sum_def)
    have lt2: "2 * j + 1 + 2 < length x" using lt by simp
    have lag: "2 * j + 1 + 2 = 2 * Suc j + 1" by simp
    define S where "S = (\<Sum>i = Suc j..<Suc j + ?c'. running_min_at x mu var i)"
    define L where "L = map ?a [2 * Suc j + 2..<2 * (Suc j + ?c') + 2]"
    have "ess_1d_loop x mu var (2 * j + 1) (?a (2 * j)) (?a (2 * j + 1)) rm acs ac
          = ess_1d_loop x mu var (2 * j + 1 + 2) (?a (2 * Suc j)) (?a (2 * Suc j + 1))
              (running_min_at x mu var j) (acs + 2 * running_min_at x mu var j)
              (ac @ [?a (2 * Suc j), ?a (2 * Suc j + 1)])"
      by (subst ess_1d_loop.simps)
        (simp only: pos lt2 simp_thms if_True Let_def rm' ev od sum.case)
    then have step:
      "ess_1d_loop x mu var (2 * j + 1) (?a (2 * j)) (?a (2 * j + 1)) rm acs ac
       = ess_1d_loop x mu var (2 * Suc j + 1) (?a (2 * Suc j)) (?a (2 * Suc j + 1))
           (running_min_at x mu var j) (acs + 2 * running_min_at x mu var j)
           (ac @ [?a (2 * Suc j), ?a (2 * Suc j + 1)])"
      by (simp only: lag)
    have IH: "ess_1d_loop x mu var (2 * Suc j + 1) (?a (2 * Suc j)) (?a (2 * Suc j + 1))
                (running_min_at x mu var j) (acs + 2 * running_min_at x mu var j)
                (ac @ [?a (2 * Suc j), ?a (2 * Suc j + 1)])
              = Inr (acs + 2 * running_min_at x mu var j + 2 * S,
                     (ac @ [?a (2 * Suc j), ?a (2 * Suc j + 1)]) @ L)"
      unfolding S_def L_def
      by (rule less.hyps) (use jn lt less.prems(1) in simp_all)
    have sum: "(\<Sum>i = j..<j + Suc ?c'. running_min_at x mu var i)
               = running_min_at x mu var j + S"
      by (subst sum.atLeast_Suc_lessThan) (simp_all add: S_def)
    have "[2 * j + 2..<2 * (j + Suc ?c') + 2]
          = (2 * Suc j) # (2 * Suc j + 1) # [2 * Suc j + 2..<2 * (Suc j + ?c') + 2]"
      using upt_two_Cons [of "2 * j + 2" "2 * (j + Suc ?c') + 2"] by (simp del: upt_Suc)
    then have lst: "map ?a [2 * j + 2..<2 * (j + Suc ?c') + 2]
                    = ?a (2 * Suc j) # ?a (2 * Suc j + 1) # L"
      by (simp only: L_def list.map)
    show ?thesis
      unfolding c step IH sum lst by (simp add: algebra_simps)
  qed
qed

lemma ess_1d_sum_closed:
  assumes "2 \<le> length x" and "var \<noteq> 0"
  shows "ess_1d_sum x mu var = Inr (accumulated_spec x mu var, trace_spec x mu var)"
proof -
  let ?a = "acorr_spec x mu var"
  have a0: "compute_acorr x 0 mu var = Inr (?a 0)"
    by (rule compute_acorr_closed) (use assms in auto)
  have a1: "compute_acorr x 1 mu var = Inr (?a 1)"
    by (rule compute_acorr_closed) (use assms in auto)
  have loop: "ess_1d_loop x mu var (2 * 0 + 1) (?a (2 * 0)) (?a (2 * 0 + 1))
                (?a 0 + ?a 1) (0 - ?a 0) [?a 0, ?a 1]
              = Inr (0 - ?a 0 + 2 * (\<Sum>i = 0..<0 + n_pairs x mu var. running_min_at x mu var i),
                     [?a 0, ?a 1] @ map ?a [2 * 0 + 2..<2 * (0 + n_pairs x mu var) + 2])"
    unfolding n_pairs_def
    by (rule ess_1d_loop_closed) (use assms in \<open>simp_all add: pair_sum_def\<close>)
  have u: "[0..<2 * n_pairs x mu var + 2] = 0 # Suc 0 # [0 + 2..<2 * n_pairs x mu var + 2]"
    by (rule upt_two_Cons) simp
  have tr: "[?a 0, ?a 1] @ map ?a [2 * 0 + 2..<2 * (0 + n_pairs x mu var) + 2]
            = trace_spec x mu var"
    unfolding trace_spec_def u by simp
  have acc: "0 - ?a 0 + 2 * (\<Sum>i = 0..<0 + n_pairs x mu var. running_min_at x mu var i)
             = accumulated_spec x mu var"
    by (simp add: accumulated_spec_def running_min_at_Min lessThan_atLeast0)
  from loop have "ess_1d_loop x mu var 1 (?a 0) (?a 1) (?a 0 + ?a 1) (0 - ?a 0) [?a 0, ?a 1]
                  = Inr (accumulated_spec x mu var, trace_spec x mu var)"
    unfolding tr acc by simp
  then show ?thesis
    by (simp only: ess_1d_sum_def a0 a1 sum.case)
qed


text \<open>
  C1. For a series \<open>x\<close> of length \<open>n \<ge> 3\<close> and a non-zero variance, \<open>ess_1d\<close>
  accumulates exactly the specified sum: it starts from \<open>- acorr(0)\<close> and, for every pass
  of the loop, that is for every pair \<open>j = 0, 1, ...\<close> up to the first one whose even-lag
  plus odd-lag sum is not positive or for which \<open>lag + 2 < n\<close> fails, adds twice the
  running minimum of the pair sums so far. The trace holds the autocorrelations of all
  lags computed, in lag order. When the accumulated sum is not negative the returned
  ESS is \<open>n / accumulated\<close> (NumPy's division: \<^verbatim>\<open>inf\<close> on a zero sum).
\<close>

theorem ess_1d_monotone_sequence:
  assumes "3 \<le> length x" and "var \<noteq> 0"
  shows "ess_1d_sum x mu var = Inr (accumulated_spec x mu var, trace_spec x mu var) \<and>
         ess_1d x mu var =
           Inr (if accumulated_spec x mu var < 0 then PosInf
                else if accumulated_spec x mu var = 0 then PosInf
                else Finite (real (length x) / accumulated_spec x mu var),
                trace_spec x mu var)"
proof -
  have "ess_1d_sum x mu var = Inr (accumulated_spec x mu var, trace_spec x mu var)"
    by (rule ess_1d_sum_closed) (use assms in auto)
  then show ?thesis by (simp add: ess_1d_def Let_def)
qed

theorem ess_1d_monotone_sequence_witness:
  "3 \<le> length [1, 2, 3, 4, 5 :: real] \<and> (2::real) \<noteq> 0 \<and>
   ess_1d_sum [1, 2, 3, 4, 5] 3 2 = Inr (9 / 5, [1, 2 / 5, - 1 / 10, - 2 / 5]) \<and>
   ess_1d [1, 2, 3, 4, 5] 3 2 = Inr (Finite (25 / 9), [1, 2 / 5, - 1 / 10, - 2 / 5])"
  using ess_1d_monotone_sequence [of "[1, 2, 3, 4, 5]" 2 3]
  by (simp add: ess_1d_def ess_1d_sum_def ess_1d_loop.simps compute_acorr_def
      np_multiply_def np_mean_def np_true_divide_def py_slice_to_def)

lemma compute_acorr_empty: "compute_acorr [] k mu var = Inl NonFinite"
  by (simp add: compute_acorr_def np_multiply_def np_mean_def py_slice_to_def)

lemma compute_acorr_nonempty: "compute_acorr x k mu var = Inr v \<Longrightarrow> x \<noteq> []"
  by (cases x) (simp_all add: compute_acorr_empty)

lemma ess_1d_sum_nonempty: "ess_1d_sum x mu var = Inr r \<Longrightarrow> x \<noteq> []"
  by (auto simp add: ess_1d_sum_def split: sum.splits dest: compute_acorr_nonempty)

text \<open>
  C6. Whenever the accumulated autocorrelation sum of \<open>ess_1d\<close> ends up strictly
  negative, the returned ESS is positive infinity; and a finite ESS that \<open>ess_1d\<close>
  returns is never negative (it is strictly positive).
\<close>

theorem ess_1d_never_negative:
  "(\<forall>acs tr. ess_1d_sum x mu var = Inr (acs, tr) \<and> acs < 0
      \<longrightarrow> ess_1d x mu var = Inr (PosInf, tr)) \<and>
   (\<forall>r tr. ess_1d x mu var = Inr (Finite r, tr) \<longrightarrow> 0 < r)"
proof (intro conjI allI impI)
  fix acs tr
  assume "ess_1d_sum x mu var = Inr (acs, tr) \<and> acs < 0"
  then show "ess_1d x mu var = Inr (PosInf, tr)"
    by (simp add: ess_1d_def Let_def)
next
  fix r tr
  assume r: "ess_1d x mu var = Inr (Finite r, tr)"
  then obtain acs where s: "ess_1d_sum x mu var = Inr (acs, tr)"
    by (auto simp add: ess_1d_def Let_def split: sum.splits prod.splits)
  then have "0 < length x" using ess_1d_sum_nonempty by blast
  moreover from r s have "0 < acs \<and> r = real (length x) / acs"
    by (auto simp add: ess_1d_def Let_def split: if_splits)
  ultimately show "0 < r" by simp
qed

theorem ess_1d_never_negative_witness:
  "ess_1d_sum [1, - 1, 1, - 1, 1, - 1, 1] 0 1
     = Inr (- 3 / 7, [1, - 6 / 7, 5 / 7, - 4 / 7, 3 / 7, - 2 / 7]) \<and>
   ess_1d [1, - 1, 1, - 1, 1, - 1, 1] 0 1
     = Inr (PosInf, [1, - 6 / 7, 5 / 7, - 4 / 7, 3 / 7, - 2 / 7]) \<and>
   ess_1d [1, 2, 3, 4, 5] 3 2 = Inr (Finite (25 / 9), [1, 2 / 5, - 1 / 10, - 2 / 5]) \<and>
   (0::real) < 25 / 9"
  using ess_1d_never_negative [of "[1, - 1, 1, - 1, 1, - 1, 1]" 0 1]
    ess_1d_never_negative [of "[1, 2, 3, 4, 5]" 3 2]
  by (simp add: ess_1d_def ess_1d_sum_def ess_1d_loop.simps compute_acorr_def
      np_multiply_def np_mean_def np_true_divide_def py_slice_to_def)


subsection \<open>Properties of mono\_seq\_ess\<close>

lemma mono_seq_ess_loop_length:
  "mono_seq_ess_loop a mu var js (ess, ac) = Inr (ess', ac') \<Longrightarrow> length ess' = length ess"
proof (induction js arbitrary: ess ac)
  case Nil
  then show ?case by simp
next
  case (Cons j js)
  then show ?case
    by (auto split: sum.splits prod.splits)
qed

text \<open>Whatever the number of columns, a result has one entry for each row but the last.\<close>

lemma mono_seq_ess_length:
  assumes "mono_seq_ess samples key mu var = Inr ess" and "samples key = Some a"
  shows "length ess = nrows a - 1"
  using assms
  by (auto simp add: mono_seq_ess_def Let_def split: if_splits sum.splits
      dest: mono_seq_ess_loop_length)

text \<open>
  C2. The specification asks for one ESS value for each of the \<open>d\<close> columns of an \<open>(n, d)\<close>
  array, together with the \<open>d\<close> autocorrelation traces. \<open>mono_seq_ess\<close> iterates over
  \<open>n - 1\<close> column indices and returns the ESS values alone: on a \<open>(4, 2)\<close> array it reads
  column 2 and raises IndexError; on a \<open>(3, 3)\<close> array it returns two values.
\<close>

theorem mono_seq_ess_rows_minus_one:
  "mono_seq_ess [''x'' \<mapsto> of_rows [[1, 2], [2, 1], [3, 5], [4, 3]]] ''x'' None None
     = Inl IndexError \<and>
   mono_seq_ess [''x'' \<mapsto> of_rows [[1, 2, 7], [2, 1, 7], [3, 5, 9]]] ''x'' None None
     = Inr [PosInf, PosInf]"
  by code_simp

subsection \<open>Properties of effective\_sample\_size\<close>

lemma sequence_err_map_Inr:
  "(\<And>j. j \<in> set js \<Longrightarrow> g j = Inr (f j)) \<Longrightarrow> sequence_err (map g js) = Inr (map f js)"
  by (induction js) simp_all

lemma np_broadcast_to_length: "np_broadcast_to d v = Inr w \<Longrightarrow> length w = d"
  by (auto simp add: np_broadcast_to_def split: if_splits)

lemma np_broadcast_to_idem: "length w = d \<Longrightarrow> np_broadcast_to d w = Inr w"
  by (simp add: np_broadcast_to_def)

lemma sequence_err_length: "sequence_err rs = Inr vs \<Longrightarrow> length vs = length rs"
  by (induction rs arbitrary: vs) (auto split: sum.splits)

lemma chain_term_closed:
  assumes mu: "np_broadcast_to (dim_d x) mu = Inr mu_b"
    and var: "np_broadcast_to (dim_d x) var = Inr var_b"
    and nz: "\<forall>j<dim_d x. var_b ! j \<noteq> 0"
    and s: "1 \<le> s" "s < dim_t x"
  shows "chain_term x i s mu var = Inr (map (chain_acorr x mu_b var_b s i) [0..<dim_d x])"
proof -
  have ne: "[0..<dim_t x - s] \<noteq> []" using s by simp
  have sum: "sum_list (map f [0..<dim_t x - s]) = (\<Sum>r<dim_t x - s. f r)" for f :: "nat \<Rightarrow> real"
    by (simp add: interv_sum_list_conv_sum_set_nat lessThan_atLeast0)
  have "sequence_err (map (\<lambda>j.
          case np_mean (map (\<lambda>r. (at3 x i r j - mu_b ! j) * (at3 x i (r + s) j - mu_b ! j))
                          [0..<dim_t x - s]) of
            Inl e \<Rightarrow> Inl e
          | Inr m \<Rightarrow> np_true_divide m (var_b ! j)) [0..<dim_d x])
        = Inr (map (chain_acorr x mu_b var_b s i) [0..<dim_d x])"
    by (rule sequence_err_map_Inr)
      (use nz s in \<open>simp add: np_mean_def np_true_divide_def chain_acorr_def sum\<close>)
  then show ?thesis
    using s by (simp add: chain_term_def mu var Let_def)
qed

lemma act_loop_closed:
  assumes mu: "np_broadcast_to (dim_d x) mu = Inr mu_b"
    and var: "np_broadcast_to (dim_d x) var = Inr var_b"
    and nz: "\<forall>j<dim_d x. var_b ! j \<noteq> 0"
    and s: "1 \<le> s" "s < dim_t x"
    and len: "length act = dim_d x"
  shows "act_loop x s mu var is act
         = Inr (map (\<lambda>j. act ! j + sum_list (map (\<lambda>i. chain_acorr x mu_b var_b s i j) is))
                  [0..<dim_d x])"
  using len
proof (induction "is" arbitrary: act)
  case Nil
  then show ?case using map_nth [of act] by simp
next
  case (Cons i "is")
  let ?c = "map (chain_acorr x mu_b var_b s i) [0..<dim_d x]"
  have ct: "chain_term x i s mu var = Inr ?c"
    by (rule chain_term_closed [OF mu var nz s])
  have l2: "length (map2 (+) act ?c) = dim_d x" using Cons.prems by simp
  have nth: "map2 (+) act ?c ! j = act ! j + chain_acorr x mu_b var_b s i j" if "j < dim_d x" for j
    using that Cons.prems by simp
  show ?case
    by (simp add: ct Cons.IH [OF l2] nth add.assoc)
qed

lemma auto_correlation_time_closed:
  assumes mu: "np_broadcast_to (dim_d x) mu = Inr mu_b"
    and var: "np_broadcast_to (dim_d x) var = Inr var_b"
    and nz: "\<forall>j<dim_d x. var_b ! j \<noteq> 0"
    and s: "1 \<le> s" "s < dim_t x"
    and b: "0 < dim_b x"
  shows "auto_correlation_time x s mu var = Inr (map (batch_acorr x mu_b var_b s) [0..<dim_d x])"
proof -
  have act: "act_loop x s mu var [0..<dim_b x] (replicate (dim_d x) 0)
             = Inr (map (\<lambda>j. (\<Sum>i<dim_b x. chain_acorr x mu_b var_b s i j)) [0..<dim_d x])"
    by (simp add: act_loop_closed [OF mu var nz s] interv_sum_list_conv_sum_set_nat
        lessThan_atLeast0)
  have "sequence_err (map (\<lambda>a. np_true_divide a (real (dim_b x)))
          (map (\<lambda>j. (\<Sum>i<dim_b x. chain_acorr x mu_b var_b s i j)) [0..<dim_d x]))
        = Inr (map (batch_acorr x mu_b var_b s) [0..<dim_d x])"
    unfolding map_map
    by (rule sequence_err_map_Inr)
      (use b in \<open>simp add: np_true_divide_def batch_acorr_def chain_acorr_def\<close>)
  then show ?thesis
    by (simp add: auto_correlation_time_def act)
qed

lemma ess_update_prefix:
  assumes "length p = dim_d x" and "length ess = dim_d x" and "k \<le> dim_d x"
  shows "fold (\<lambda>j e. if p ! j > 5 / 100
                      then e[j := e ! j + 2 * p ! j * (1 - real s / real (dim_t x))] else e)
           [0..<k] ess
         = map (\<lambda>j. if j < k \<and> p ! j > 5 / 100
                     then ess ! j + 2 * p ! j * (1 - real s / real (dim_t x)) else ess ! j)
             [0..<dim_d x]"
  using assms(3)
proof (induction k)
  case 0
  then show ?case using map_nth [of ess] assms(2) by simp
next
  case (Suc k)
  then have k: "k < dim_d x" by simp
  show ?case
    using Suc k assms(1,2)
    by (auto simp add: list_eq_iff_nth_eq nth_list_update less_Suc_eq)
qed

lemma ess_update_closed:
  assumes "length ess = dim_d x"
  shows "ess_update x s (map (batch_acorr x mu var s) [0..<dim_d x]) ess
         = map (\<lambda>j. ess ! j + lag_term x mu var s j) [0..<dim_d x]"
  unfolding ess_update_def
  by (subst ess_update_prefix [where k = "dim_d x"])
    (use assms in \<open>simp_all add: lag_term_def\<close>)

lemma significant_filter:
  "length (filter (\<lambda>v. v > 5 / 100) (map (batch_acorr x mu var s) [0..<dim_d x])) = 0
   \<longleftrightarrow> \<not> significant x mu var s"
  by (auto simp add: significant_def filter_empty_conv)

lemma ess_lag_loop_closed:
  assumes mu: "np_broadcast_to (dim_d x) mu = Inr mu_b"
    and var: "np_broadcast_to (dim_d x) var = Inr var_b"
    and nz: "\<forall>j<dim_d x. var_b ! j \<noteq> 0"
    and b: "0 < dim_b x"
    and ss: "\<forall>s\<in>set ss. 1 \<le> s \<and> s < dim_t x"
    and len: "length ess = dim_d x"
  shows "ess_lag_loop x mu var ss ess
         = Inr (map (\<lambda>j. ess ! j + sum_list (map (\<lambda>s. lag_term x mu_b var_b s j)
                                            (takeWhile (significant x mu_b var_b) ss)))
                  [0..<dim_d x])"
  using ss len
proof (induction ss arbitrary: ess)
  case Nil
  then show ?case using map_nth [of ess] by simp
next
  case (Cons s ss)
  let ?p = "map (batch_acorr x mu_b var_b s) [0..<dim_d x]"
  have s: "1 \<le> s" "s < dim_t x" using Cons.prems(1) by simp_all
  have p: "auto_correlation_time x s mu var = Inr ?p"
    by (rule auto_correlation_time_closed [OF mu var nz s b])
  let ?ess' = "map (\<lambda>j. ess ! j + lag_term x mu_b var_b s j) [0..<dim_d x]"
  have upd: "ess_update x s ?p ess = ?ess'"
    by (rule ess_update_closed [OF Cons.prems(2)])
  have step: "ess_lag_loop x mu var (s # ss) ess
              = (if \<not> significant x mu_b var_b s then Inr ess
                 else ess_lag_loop x mu var ss ?ess')"
    by (simp only: ess_lag_loop.simps p sum.case significant_filter upd)
  show ?case
  proof (cases "significant x mu_b var_b s")
    case False
    then show ?thesis
      unfolding step using map_nth [of ess] Cons.prems(2) by simp
  next
    case True
    have l': "length ?ess' = dim_d x" by simp
    have rest: "\<forall>s\<in>set ss. 1 \<le> s \<and> s < dim_t x" using Cons.prems(1) by simp
    show ?thesis
      unfolding step using True by (simp add: Cons.IH [OF rest l'] add.assoc)
  qed
qed


lemma n_lags_le: "n_lags x mu var \<le> dim_t x - 1"
  using length_takeWhile_le [of "significant x mu var" "[1..<dim_t x]"]
  by (simp add: n_lags_def)

lemma takeWhile_lags:
  "takeWhile (significant x mu var) [1..<dim_t x] = [1..<1 + n_lags x mu var]"
proof (cases "dim_t x = 0")
  case True
  then show ?thesis by (simp add: n_lags_def)
next
  case False
  have "takeWhile (significant x mu var) [1..<dim_t x]
        = take (n_lags x mu var) [1..<dim_t x]"
    unfolding n_lags_def by (rule takeWhile_eq_take)
  also have "\<dots> = [1..<1 + n_lags x mu var]"
    by (rule take_upt) (use False n_lags_le [of x mu var] in simp)
  finally show ?thesis .
qed

lemma sum_list_lags:
  "sum_list (map f (takeWhile (significant x mu var) [1..<dim_t x]))
   = (\<Sum>s = 1..n_lags x mu var. f s)"
proof -
  have "{1..<1 + n_lags x mu var} = {1..n_lags x mu var}" by auto
  then show ?thesis
    by (simp only: takeWhile_lags interv_sum_list_conv_sum_set_nat set_upt)
qed

lemma lag_term_nonneg:
  assumes "s \<le> dim_t x"
  shows "0 \<le> lag_term x mu var s j"
proof (cases "batch_acorr x mu var s j > 5 / 100")
  case True
  have "real s / real (dim_t x) \<le> 1"
    using assms by (cases "dim_t x = 0") simp_all
  then have "0 \<le> 1 - real s / real (dim_t x)" by simp
  moreover have "0 \<le> 2 * batch_acorr x mu var s j" using True by simp
  ultimately have "0 \<le> 2 * batch_acorr x mu var s j * (1 - real s / real (dim_t x))"
    by (rule mult_nonneg_nonneg [rotated])
  with True show ?thesis by (simp add: lag_term_def)
next
  case False
  then show ?thesis by (simp add: lag_term_def)
qed

lemma inflation_ge_1: "1 \<le> inflation x mu var j"
proof -
  have "0 \<le> (\<Sum>s = 1..n_lags x mu var. lag_term x mu var s j)"
  proof (rule sum_nonneg)
    fix s assume "s \<in> {1..n_lags x mu var}"
    then have "s \<le> dim_t x" using n_lags_le [of x mu var] by auto
    then show "0 \<le> lag_term x mu var s j" by (rule lag_term_nonneg)
  qed
  then show ?thesis by (simp add: inflation_def)
qed

lemma option_vector:
  assumes "(case v of None \<Rightarrow> dflt | Some w \<Rightarrow> np_broadcast_to d w) = Inr v_b"
    and "\<And>w. dflt = Inr w \<Longrightarrow> length w = d"
  obtains raw where "(case v of None \<Rightarrow> dflt | Some w \<Rightarrow> Inr w) = Inr raw"
    and "np_broadcast_to d raw = Inr v_b"
proof (cases v)
  case None
  with assms have "dflt = Inr v_b" "np_broadcast_to d v_b = Inr v_b"
    by (simp_all add: np_broadcast_to_idem)
  with None that show ?thesis by simp
next
  case (Some w)
  with assms that show ?thesis by simp
qed

lemma np_mean_axis01_length: "np_mean_axis01 x = Inr w \<Longrightarrow> length w = dim_d x"
  by (auto simp add: np_mean_axis01_def dest: sequence_err_length)

lemma np_var_axis01_length: "np_var_axis01 x = Inr w \<Longrightarrow> length w = dim_d x"
  by (auto simp add: np_var_axis01_def dest: sequence_err_length)

lemma effective_sample_size_closed:
  assumes mu: "(case mu of None \<Rightarrow> np_mean_axis01 x | Some v \<Rightarrow> np_broadcast_to (dim_d x) v)
                 = Inr mu_b"
    and var: "(case var of None \<Rightarrow> np_var_axis01 x | Some v \<Rightarrow> np_broadcast_to (dim_d x) v)
                 = Inr var_b"
    and nz: "\<forall>j<dim_d x. var_b ! j \<noteq> 0"
    and b: "0 < dim_b x"
  shows "effective_sample_size x mu var
         = Inr (map (\<lambda>j. real (dim_t x) / inflation x mu_b var_b j) [0..<dim_d x])"
proof -
  from mu obtain mu' where mu': "(case mu of None \<Rightarrow> np_mean_axis01 x | Some v \<Rightarrow> Inr v) = Inr mu'"
    and mu_b: "np_broadcast_to (dim_d x) mu' = Inr mu_b"
    by (rule option_vector) (rule np_mean_axis01_length)
  from var obtain var' where
    var': "(case var of None \<Rightarrow> np_var_axis01 x | Some v \<Rightarrow> Inr v) = Inr var'"
    and var_b: "np_broadcast_to (dim_d x) var' = Inr var_b"
    by (rule option_vector) (rule np_var_axis01_length)
  have "ess_lag_loop x mu' var' [1..<dim_t x] (replicate (dim_d x) 1)
        = Inr (map (\<lambda>j. replicate (dim_d x) 1 ! j
                 + sum_list (map (\<lambda>s. lag_term x mu_b var_b s j)
                     (takeWhile (significant x mu_b var_b) [1..<dim_t x]))) [0..<dim_d x])"
    by (rule ess_lag_loop_closed [OF mu_b var_b nz b]) simp_all
  also have "\<dots> = Inr (map (inflation x mu_b var_b) [0..<dim_d x])"
    unfolding sum_list_lags by (simp add: inflation_def)
  finally have loop: "ess_lag_loop x mu' var' [1..<dim_t x] (replicate (dim_d x) 1)
                      = Inr (map (inflation x mu_b var_b) [0..<dim_d x])" .
  have seq: "sequence_err (map (\<lambda>e. np_true_divide (real (dim_t x)) e)
          (map (inflation x mu_b var_b) [0..<dim_d x]))
        = Inr (map (\<lambda>j. real (dim_t x) / inflation x mu_b var_b j) [0..<dim_d x])"
    unfolding map_map
  proof (rule sequence_err_map_Inr)
    fix j
    have "inflation x mu_b var_b j \<noteq> 0"
      using inflation_ge_1 [of x mu_b var_b j] by simp
    then show "((\<lambda>e. np_true_divide (real (dim_t x)) e) \<circ> inflation x mu_b var_b) j
               = Inr (real (dim_t x) / inflation x mu_b var_b j)"
      by (simp add: np_true_divide_def)
  qed
  show ?thesis
    by (simp only: effective_sample_size_def mu' var' loop sum.case seq)
qed


text \<open>
  C4. For a tensor of shape \<open>(b, t, d)\<close>, with \<open>mu_b\<close> and \<open>var_b\<close> the mean and
  variance vectors in use (those supplied, or the per-dimension mean and variance over all
  chains and draws), at least one chain and no zero variance: \<open>effective_sample_size\<close>
  starts every accumulator at 1; it handles the lags \<open>s = 1, 2, ...\<close> below \<open>t\<close> up to
  the first lag at which no dimension's batch-averaged autocorrelation exceeds 0.05; at
  each lag handled it adds \<open>2 * p[j] * (1 - s/t)\<close> to the accumulator of exactly the
  dimensions \<open>j\<close> with \<open>p[j] > 0.05\<close>; and it returns \<open>t\<close> divided by each accumulator.
\<close>

theorem effective_sample_size_formula:
  assumes "(case mu of None \<Rightarrow> np_mean_axis01 x | Some v \<Rightarrow> np_broadcast_to (dim_d x) v)
             = Inr mu_b"
    and "(case var of None \<Rightarrow> np_var_axis01 x | Some v \<Rightarrow> np_broadcast_to (dim_d x) v)
             = Inr var_b"
    and "\<forall>j<dim_d x. var_b ! j \<noteq> 0"
    and "0 < dim_b x"
  shows "effective_sample_size x mu var
         = Inr (map (\<lambda>j. real (dim_t x) / inflation x mu_b var_b j) [0..<dim_d x])"
  by (rule effective_sample_size_closed [OF assms])

theorem effective_sample_size_formula_witness:
  "effective_sample_size (of_chains [[[1, 1], [2, 0], [3, 1], [4, 0]],
                                     [[1, 0], [2, 1], [4, 1], [5, 0]]]) None None
   = Inr [248 / 99, 4]"
proof -
  let ?x = "of_chains [[[1, 1], [2, 0], [3, 1], [4, 0]], [[1, 0], [2, 1], [4, 1], [5, 0]]]"
  have d: "dim_d ?x = 2" "dim_t ?x = 4" "dim_b ?x = 2" by (simp_all add: of_chains_def)
  have mu: "(case None of None \<Rightarrow> np_mean_axis01 ?x
             | Some v \<Rightarrow> np_broadcast_to (dim_d ?x) v) = Inr [11 / 4, 1 / 2]"
    by (simp add: of_chains_def np_mean_axis01_def entries01_def np_mean_def upt_rec)
  have var: "(case None of None \<Rightarrow> np_var_axis01 ?x
              | Some v \<Rightarrow> np_broadcast_to (dim_d ?x) v) = Inr [31 / 16, 1 / 4]"
    by (simp add: of_chains_def np_var_axis01_def entries01_def np_mean_def np_var_def upt_rec
        power2_eq_square)
  have nz: "\<forall>j<dim_d ?x. [31 / 16, 1 / 4 :: real] ! j \<noteq> 0"
    by (simp add: d less_Suc_eq numeral_2_eq_2)
  have b: "0 < dim_b ?x" by (simp add: d)
  have eval: "map (\<lambda>j. real (dim_t ?x) / inflation ?x [11 / 4, 1 / 2] [31 / 16, 1 / 4] j)
                [0..<dim_d ?x] = [248 / 99, 4]"
    by code_simp
  show ?thesis
    using effective_sample_size_formula [OF mu var nz b] unfolding eval .
qed




subsection \<open>Properties of gelman\_rubin\_diagnostic\<close>

lemma sum_list_upt: "sum_list (map f [0..<n]) = (\<Sum>i<n. f i)" for f :: "nat \<Rightarrow> real"
  by (simp add: interv_sum_list_conv_sum_set_nat lessThan_atLeast0)

lemma np_mean_row: "0 < ncols x \<Longrightarrow> np_mean (row x i) = Inr (chain_mean x i)"
  by (simp add: np_mean_def row_def chain_mean_def sum_list_upt)

lemma np_var_row: "0 < ncols x \<Longrightarrow> np_var (row x i) = Inr (chain_var x i)"
  by (simp add: np_var_def np_mean_row)
    (simp add: np_mean_def row_def chain_var_def sum_list_upt o_def)

lemma theta_m_closed:
  "0 < nrows x \<Longrightarrow> theta_m mu (map (chain_mean x) [0..<nrows x]) = Inr (grand_mean_used x mu)"
  by (simp add: theta_m_def grand_mean_used_def np_mean_def sum_list_upt split: option.splits)

lemma gelman_rubin_ratio_closed:
  assumes "2 \<le> nrows x" and "0 < ncols x"
  shows "gelman_rubin_ratio x mu =
           (if within_var x = 0 then Inl NonFinite
            else Inr (pooled_var x (grand_mean_used x mu) / within_var x))"
proof -
  have theta: "sequence_err (map (\<lambda>i. np_mean (row x i)) [0..<nrows x])
               = Inr (map (chain_mean x) [0..<nrows x])"
    by (rule sequence_err_map_Inr) (simp add: np_mean_row assms)
  have sigma: "sequence_err (map (\<lambda>i. np_var (row x i)) [0..<nrows x])
               = Inr (map (chain_var x) [0..<nrows x])"
    by (rule sequence_err_map_Inr) (simp add: np_var_row assms)
  have th: "theta_m mu (map (chain_mean x) [0..<nrows x]) = Inr (grand_mean_used x mu)"
    by (rule theta_m_closed) (use assms in simp)
  have b: "real (ncols x) / real (nrows x - 1)
             * sum_list (map (\<lambda>th. (th - c)\<^sup>2) (map (chain_mean x) [0..<nrows x]))
           = between_var x c" for c
    by (simp add: between_var_def sum_list_upt o_def)
  have w: "1 / real (nrows x) * sum_list (map (chain_var x) [0..<nrows x]) = within_var x"
    by (simp add: within_var_def sum_list_upt)
  have m: "\<not> nrows x < 2" "ncols x \<noteq> 0" using assms by simp_all
  show ?thesis
    unfolding gelman_rubin_ratio_def Let_def
    by (simp only: m if_False theta sigma th sum.case b w)
      (simp add: np_true_divide_def pooled_var_def)
qed

lemma chain_var_nonneg: "0 \<le> chain_var x i"
  by (simp add: chain_var_def sum_nonneg)

lemma within_var_nonneg: "0 \<le> within_var x"
  by (simp add: within_var_def sum_nonneg chain_var_nonneg)

lemma between_var_nonneg: "0 \<le> between_var x c"
  by (simp add: between_var_def sum_nonneg)

lemma pooled_var_nonneg: "0 \<le> pooled_var x c"
  by (simp add: pooled_var_def within_var_nonneg between_var_nonneg)

lemma gelman_rubin_diagnostic_closed:
  assumes "2 \<le> nrows x" and "0 < ncols x"
  shows "gelman_rubin_diagnostic x mu =
           (if within_var x = 0 then Inl NonFinite
            else Inr (sqrt (pooled_var x (grand_mean_used x mu) / within_var x)))"
proof -
  have "0 \<le> pooled_var x (grand_mean_used x mu) / within_var x"
    by (simp add: pooled_var_nonneg within_var_nonneg)
  then show ?thesis
    by (simp add: gelman_rubin_diagnostic_def gelman_rubin_ratio_closed [OF assms] np_sqrt_def)
qed

text \<open>
  C3. For an array of shape \<open>(m, n)\<close> with \<open>m \<ge> 2\<close> chains (and at least one draw and a
  non-zero within-chain variance, so that the quotient is defined),
  \<open>gelman_rubin_diagnostic\<close> returns \<open>sqrt (V_hat / W)\<close>, where the chain means and
  variances are taken over the draws, \<open>B = n/(m-1) * \<Sum>\<^sub>i (theta\<^sub>i - theta_bar)\<^sup>2\<close>,
  \<open>W = (1/m) * \<Sum>\<^sub>i sigma\<^sub>i\<^sup>2\<close> and \<open>V_hat = (n-1)/n * W + (m+1)/(m*n) * B\<close>; \<open>theta_bar\<close>
  is the grand mean of line 178.
\<close>

theorem gelman_rubin_formula:
  assumes "2 \<le> nrows x" and "1 \<le> ncols x" and "within_var x \<noteq> 0"
  shows "gelman_rubin_diagnostic x mu
         = Inr (sqrt (pooled_var x (grand_mean_used x mu) / within_var x))"
  using assms by (simp add: gelman_rubin_diagnostic_closed)

theorem gelman_rubin_formula_witness:
  "2 \<le> nrows (of_rows [[1, 2], [3, 4]]) \<and> 1 \<le> ncols (of_rows [[1, 2], [3, 4]]) \<and>
   within_var (of_rows [[1, 2], [3, 4]]) \<noteq> 0 \<and>
   gelman_rubin_diagnostic (of_rows [[1, 2], [3, 4]]) (Some 1) = Inr (sqrt (79 / 2))"
proof -
  let ?x = "of_rows [[1, 2], [3, 4]]"
  have m: "2 \<le> nrows ?x" and n: "1 \<le> ncols ?x" by (simp_all add: of_rows_def)
  have w: "within_var ?x = 1 / 4" by code_simp
  have w0: "within_var ?x \<noteq> 0" unfolding w by simp
  have eval: "pooled_var ?x (grand_mean_used ?x (Some 1)) / within_var ?x = 79 / 2"
    by code_simp
  show ?thesis
    using gelman_rubin_formula [OF m n w0, of "Some 1"] m n w0 unfolding eval by simp
qed

text \<open>
  C5. \<open>gelman_rubin_diagnostic\<close> raises the usage error (ValueError) if and only if the
  number of chains \<open>m\<close> is less than 2.
\<close>

theorem gelman_rubin_usage_error:
  "gelman_rubin_diagnostic x mu = Inl ValueError \<longleftrightarrow> nrows x < 2"
proof (cases "nrows x < 2")
  case True
  then show ?thesis
    by (simp add: gelman_rubin_diagnostic_def gelman_rubin_ratio_def Let_def)
next
  case False
  show ?thesis
  proof (cases "ncols x = 0")
    case True
    with False show ?thesis
      by (simp add: gelman_rubin_diagnostic_def gelman_rubin_ratio_def Let_def)
  next
    case n: False
    with False show ?thesis by (simp add: gelman_rubin_diagnostic_closed)
  qed
qed

text \<open>
  C7, as amended. For \<open>m \<ge> 2\<close> identical chains of length \<open>n\<close> with a non-zero
  within-chain variance, and no reference mean (or the chains' own mean as reference
  mean), the between-chain variance is zero and \<open>gelman_rubin_diagnostic\<close> returns
  \<open>sqrt ((n - 1) / n)\<close>, which is strictly less than 1: \<open>V_hat\<close> reduces to
  \<open>(n - 1)/n * W\<close>, not to \<open>W\<close>.
\<close>

theorem gelman_rubin_identical_chains:
  assumes "2 \<le> nrows x" and "1 \<le> ncols x"
    and "\<forall>i<nrows x. \<forall>k<ncols x. at2 x i k = at2 x 0 k"
    and "within_var x \<noteq> 0"
    and "mu = None \<or> mu = Some (chain_mean x 0)"
  shows "gelman_rubin_diagnostic x mu = Inr (sqrt (real (ncols x - 1) / real (ncols x))) \<and>
         sqrt (real (ncols x - 1) / real (ncols x)) < 1"
proof -
  have cm: "chain_mean x i = chain_mean x 0" if i: "i < nrows x" for i
  proof -
    have "at2 x i k = at2 x 0 k" if "k < ncols x" for k
      using assms(3) i that by blast
    then have "(\<Sum>k<ncols x. at2 x i k) = (\<Sum>k<ncols x. at2 x 0 k)"
      by (intro sum.cong refl) simp
    then show ?thesis by (simp only: chain_mean_def)
  qed
  have "(\<Sum>i<nrows x. chain_mean x i) = (\<Sum>i<nrows x. chain_mean x 0)"
    by (intro sum.cong refl cm) simp
  then have avg: "(\<Sum>i<nrows x. chain_mean x i) / real (nrows x) = chain_mean x 0"
    using assms(1) by simp
  have gm: "grand_mean_used x mu = chain_mean x 0"
    using assms(5) by (auto simp add: grand_mean_used_def avg)
  have "(\<Sum>i<nrows x. (chain_mean x i - chain_mean x 0)\<^sup>2) = 0"
  proof (rule sum.neutral, rule ballI)
    fix i assume "i \<in> {..<nrows x}"
    then have "i < nrows x" by simp
    from cm [OF this] show "(chain_mean x i - chain_mean x 0)\<^sup>2 = 0"
      by (simp only: diff_self power_zero_numeral)
  qed
  then have b0: "between_var x (chain_mean x 0) = 0"
    by (simp add: between_var_def)
  have ratio: "pooled_var x (grand_mean_used x mu) / within_var x
               = real (ncols x - 1) / real (ncols x)"
    using assms(4) by (simp add: pooled_var_def gm b0)
  have "gelman_rubin_diagnostic x mu = Inr (sqrt (real (ncols x - 1) / real (ncols x)))"
    using assms(1,2,4) by (simp add: gelman_rubin_diagnostic_closed ratio)
  moreover have "real (ncols x - 1) / real (ncols x) < 1"
    using assms(2) by simp
  ultimately show ?thesis by simp
qed

theorem gelman_rubin_identical_chains_witness:
  "gelman_rubin_diagnostic (of_rows [[1, 2, 4], [1, 2, 4], [1, 2, 4]]) None
     = Inr (sqrt (2 / 3)) \<and> sqrt (2 / 3 :: real) < 1"
proof -
  let ?x = "of_rows [[1, 2, 4], [1, 2, 4], [1, 2, 4]]"
  have m: "2 \<le> nrows ?x" and n: "1 \<le> ncols ?x" by (simp_all add: of_rows_def)
  have same: "\<forall>i<nrows ?x. \<forall>k<ncols ?x. at2 ?x i k = at2 ?x 0 k"
    by (simp add: of_rows_def less_Suc_eq numeral_3_eq_3)
  have w: "within_var ?x = 14 / 9" by code_simp
  have w0: "within_var ?x \<noteq> 0" unfolding w by simp
  have nc: "ncols ?x = 3" by (simp add: of_rows_def)
  show ?thesis
    using gelman_rubin_identical_chains [OF m n same w0, of None] unfolding nc by simp
qed

text \<open>
  C7 with the value 1 fails: two identical chains \<open>[1, 2]\<close> give \<open>sqrt (1/2)\<close>, not 1.
\<close>

theorem gelman_rubin_identical_chains_not_one:
  "gelman_rubin_diagnostic (of_rows [[1, 2], [1, 2]]) None = Inr (sqrt (1 / 2)) \<and>
   gelman_rubin_diagnostic (of_rows [[1, 2], [1, 2]]) None \<noteq> Inr 1"
proof -
  have "gelman_rubin_ratio (of_rows [[1, 2], [1, 2]]) None = Inr (1 / 2)" by code_simp
  then show ?thesis by (simp add: gelman_rubin_diagnostic_def np_sqrt_def)
qed

text \<open>A reference mean of zero is treated as no reference mean at all.\<close>

lemma theta_m_zero: "theta_m (Some 0) theta = theta_m None theta"
  by (simp add: theta_m_def)

lemma gelman_rubin_zero_mean_ignored:
  "gelman_rubin_diagnostic x (Some 0) = gelman_rubin_diagnostic x None"
  unfolding gelman_rubin_diagnostic_def gelman_rubin_ratio_def theta_m_zero ..

text \<open>
  C8. The specification asks that a supplied reference mean is used as grand mean. On the chains
  \<open>[1, 2]\<close> and \<open>[3, 4]\<close> with the reference mean 0, \<open>gelman_rubin_diagnostic\<close> returns
  \<open>sqrt (25/2)\<close>, the value it returns without a reference mean; with 0 as grand mean the
  formula gives \<open>sqrt (175/2)\<close>.
\<close>

theorem gelman_rubin_zero_reference_mean:
  "gelman_rubin_diagnostic (of_rows [[1, 2], [3, 4]]) (Some 0) = Inr (sqrt (25 / 2)) \<and>
   gelman_rubin_diagnostic (of_rows [[1, 2], [3, 4]]) None = Inr (sqrt (25 / 2)) \<and>
   sqrt (pooled_var (of_rows [[1, 2], [3, 4]]) 0 / within_var (of_rows [[1, 2], [3, 4]]))
     = sqrt (175 / 2) \<and>
   sqrt (25 / 2 :: real) \<noteq> sqrt (175 / 2)"
proof -
  let ?x = "of_rows [[1, 2], [3, 4]]"
  have r0: "gelman_rubin_ratio ?x (Some 0) = Inr (25 / 2)" by code_simp
  have rn: "gelman_rubin_ratio ?x None = Inr (25 / 2)" by code_simp
  have want: "pooled_var ?x 0 / within_var ?x = 175 / 2" by code_simp
  show ?thesis
    unfolding want by (simp add: gelman_rubin_diagnostic_def r0 rn np_sqrt_def)
qed

end
